theory Spec2Isabelle
  imports Main
begin

section \<open>Go strings and the library functions the loader calls\<close>

text \<open>
  A Go \<open>string\<close> is a sequence of bytes; \<^typ>\<open>string\<close> (a list of 8-bit characters)
  is the same thing.  \<open>len(s)\<close> is \<^const>\<open>length\<close>, \<open>s[a:b]\<close> is
  \<open>take (b - a) (drop a s)\<close> and \<open>+\<close> is \<open>@\<close>.
\<close>

definition HasPrefix :: "string \<Rightarrow> string \<Rightarrow> bool" where
  \<comment> \<open>\<open>strings.HasPrefix(s, prefix)\<close>\<close>
  "HasPrefix s p = (length p \<le> length s \<and> take (length p) s = p)"

definition HasSuffix :: "string \<Rightarrow> string \<Rightarrow> bool" where
  \<comment> \<open>\<open>strings.HasSuffix(s, suffix)\<close>\<close>
  "HasSuffix s p = (length p \<le> length s \<and> drop (length s - length p) s = p)"

definition isDigit :: "char \<Rightarrow> bool" where
  "isDigit c = (c \<in> set ''0123456789'')"

definition digitVal :: "char \<Rightarrow> nat" where
  "digitVal c = of_char c - 48"

definition decimal :: "string \<Rightarrow> nat" where
  \<comment> \<open>the value of a run of decimal digits, most significant first\<close>
  "decimal ds = foldl (\<lambda>n c. 10 * n + digitVal c) 0 ds"

section \<open>Errors and panics\<close>

datatype error =
    ErrNoRows            \<comment> \<open>\<open>sql.ErrNoRows\<close>\<close>
  | DbError string       \<comment> \<open>any other error of the database layer\<close>
  | Errorf string        \<comment> \<open>an error built by \<open>fmt.Errorf\<close>, with its message\<close>

datatype panic =
    Panic string                 \<comment> \<open>\<open>panic(msg)\<close>\<close>
  | IndexOutOfRange nat nat      \<comment> \<open>runtime error: index out of range [i] with length n\<close>

section \<open>PgRelkind\<close>

text \<open>
  Modelled from the spec: the declaration of \<open>internal.RelType\<close> is not part of the
  loader's file.  The spec gives it as the enumeration \<open>{Table, View}\<close>; a Go enumeration
  is an integer type, so values other than the declared constants exist and are what the
  \<open>default\<close> branch of the switch receives.
\<close>

datatype RelType = Table | View | Undeclared nat

fun PgRelkind :: "RelType \<Rightarrow> panic + string" where
  "PgRelkind Table = Inr ''r''"
| "PgRelkind View = Inr ''v''"
| "PgRelkind _ = Inl (Panic ''unsupported RelType'')"

section \<open>PgParseType\<close>

text \<open>
  \<open>args.ParsePrecision\<close> (a method of \<open>internal.ArgType\<close>) and
  \<open>snaker.SnakeToCamelIdentifier\<close> (a third-party library) are called by the loader
  but defined elsewhere: the translation takes both as parameters.
\<close>

record ArgType =
  ParsePrecision :: "string \<Rightarrow> string \<times> int \<times> int"

definition nonSliceDt :: "(string \<Rightarrow> string) \<Rightarrow> string \<Rightarrow> string \<times> string" where
  "nonSliceDt SnakeToCamelIdentifier dt =
    (if dt = ''boolean'' then (''pgtype.Bool{}'', ''pgtype.Bool'')
     else if dt = ''character'' \<or> dt = ''character varying'' \<or> dt = ''text''
             \<or> dt = ''money'' \<or> dt = ''inet'' then (''pgtype.Text{}'', ''pgtype.Text'')
     else if dt = ''smallint'' \<or> dt = ''smallserial'' then (''pgtype.Int2{}'', ''pgtype.Int2'')
     else if dt = ''integer'' \<or> dt = ''serial'' then (''pgtype.Int4{}'', ''pgtype.Int4'')
     else if dt = ''bigint'' \<or> dt = ''bigserial'' then (''pgtype.Int8{}'', ''pgtype.Int8'')
     else if dt = ''real'' then (''pgtype.Float4{}'', ''pgtype.Float4'')
     else if dt = ''numeric'' \<or> dt = ''double precision''
       then (''pgtype.Float8{}'', ''pgtype.Float8'')
     else if dt = ''bytea'' then (''pgtype.Bytea{}'', ''pgtype.Bytea'')
     else if dt = ''jsonb'' then (''pgtype.JSONB{}'', ''pgtype.JSONB'')
     else if dt = ''date'' then (''pgtype.Date{}'', ''pgtype.Date'')
     else if dt = ''timestamp with time zone'' \<or> dt = ''time with time zone''
       then (''pgtype.Timestamp{}'', ''pgtype.Timestamp'')
     else if dt = ''time without time zone'' \<or> dt = ''timestamp without time zone''
       then (''pgtype.Timestamptz{}'', ''pgtype.Timestamptz'')
     else if dt = ''interval'' then (''pgtype.Interval{}'', ''pgtype.Interval'')
     else if dt = CHR 0x22 # ''char'' @ [CHR 0x22] then (''pgtype.QChar{}'', ''pgtype.QChar'')
     else if dt = ''bit'' then (''pgtype.Bit{}'', ''pgtype.Bit'')
     else if dt = ''uuid'' then (''pgtype.UUID{}'', ''pgtype.UUID'')
     else (let typ = SnakeToCamelIdentifier dt in (typ @ ''{}'', typ)))"

definition sliceDt :: "string \<Rightarrow> string \<times> string" where
  "sliceDt dt =
    (if dt = ''uuid'' then (''pgtype.UUIDArray{}'', ''pgtype.UUIDArray'')
     else (''[]'' @ dt @ ''{}'', ''[]'' @ dt))"

text \<open>
  The result is \<open>(precision, nilVal, typ)\<close>.  The recursion on the rest of a
  \<open>SETOF\<close> string is on a shorter string.
\<close>

function PgParseType ::
  "ArgType \<Rightarrow> (string \<Rightarrow> string) \<Rightarrow> string \<Rightarrow> bool \<Rightarrow> int \<times> string \<times> string" where
  "PgParseType args SnakeToCamelIdentifier dt nullable =
    (if HasPrefix dt ''SETOF '' then
       (case PgParseType args SnakeToCamelIdentifier (drop (length ''SETOF '') dt) False of
          (_, _, t) \<Rightarrow> (0, ''nil'', ''[]'' @ t))
     else
       let asSlice = HasSuffix dt ''[]'';
           dt1 = (if asSlice then take (length dt - 2) dt else dt);
           (dt2, precision, _) = ParsePrecision args dt1;
           (nilVal, typ) = nonSliceDt SnakeToCamelIdentifier dt2;
           (nilVal, typ) = (if asSlice then sliceDt dt2 else (nilVal, typ))
       in (precision, nilVal, typ))"
  by pat_completeness auto
termination
  by (relation "measure (\<lambda>(args, snake, dt, nullable). length dt)")
     (auto simp: HasPrefix_def)

declare PgParseType.simps [simp del]

text \<open>
  Modelled from the spec: \<open>ArgType.ParsePrecision\<close> is missing from the loader's file.
  The spec (section 4.1, step 3): "Extract a numeric precision/scale annotation if present
  in the type string (e.g. a parenthesized qualifier), yielding a base type name and an
  integer precision (0 if absent)"; section 8 adds that the precision is the qualifier's
  leading integer.  The qualifier is read as a trailing \<open>(digits)\<close> or
  \<open>(digits,digits)\<close>; the function works on the reversed string.
\<close>

definition parseQualifierRev :: "string \<Rightarrow> (string \<times> int \<times> int) option" where
  "parseQualifierRev r =
    (case r of
       [] \<Rightarrow> None
     | c # r1 \<Rightarrow>
        if c \<noteq> CHR '')'' then None
        else let d2 = takeWhile isDigit r1; rest = dropWhile isDigit r1 in
          if d2 = [] then None
          else (case rest of
                  [] \<Rightarrow> None
                | c1 # r2 \<Rightarrow>
                   if c1 = CHR ''('' then Some (r2, int (decimal (rev d2)), 0)
                   else if c1 = CHR '','' then
                     (let d1 = takeWhile isDigit r2; rest1 = dropWhile isDigit r2 in
                      if d1 = [] then None
                      else (case rest1 of
                              [] \<Rightarrow> None
                            | c2 # r3 \<Rightarrow>
                               if c2 = CHR ''(''
                               then Some (r3, int (decimal (rev d1)), int (decimal (rev d2)))
                               else None))
                   else None))"

definition ParsePrecision_spec :: "string \<Rightarrow> string \<times> int \<times> int" where
  "ParsePrecision_spec dt =
    (case parseQualifierRev (rev dt) of
       None \<Rightarrow> (dt, 0, 0)
     | Some (b, p, s) \<Rightarrow> (rev b, p, s))"

definition args_spec :: ArgType where
  "args_spec = \<lparr>ParsePrecision = ParsePrecision_spec\<rparr>"

text \<open>
  The fixed scalar family table of the spec (section 4.1), with the native spellings and
  the canonical \<open>(zeroValue, typeName)\<close> pairs it stands for: the statement that
  \<open>PgParseType\<close> is compared with.
\<close>

definition family_table :: "(string \<times> string \<times> string) list" where
  "family_table =
    [(''boolean'', ''pgtype.Bool{}'', ''pgtype.Bool''),
     (''character'', ''pgtype.Text{}'', ''pgtype.Text''),
     (''character varying'', ''pgtype.Text{}'', ''pgtype.Text''),
     (''text'', ''pgtype.Text{}'', ''pgtype.Text''),
     (''money'', ''pgtype.Text{}'', ''pgtype.Text''),
     (''inet'', ''pgtype.Text{}'', ''pgtype.Text''),
     (''smallint'', ''pgtype.Int2{}'', ''pgtype.Int2''),
     (''smallserial'', ''pgtype.Int2{}'', ''pgtype.Int2''),
     (''integer'', ''pgtype.Int4{}'', ''pgtype.Int4''),
     (''serial'', ''pgtype.Int4{}'', ''pgtype.Int4''),
     (''bigint'', ''pgtype.Int8{}'', ''pgtype.Int8''),
     (''bigserial'', ''pgtype.Int8{}'', ''pgtype.Int8''),
     (''real'', ''pgtype.Float4{}'', ''pgtype.Float4''),
     (''numeric'', ''pgtype.Float8{}'', ''pgtype.Float8''),
     (''double precision'', ''pgtype.Float8{}'', ''pgtype.Float8''),
     (''bytea'', ''pgtype.Bytea{}'', ''pgtype.Bytea''),
     (''jsonb'', ''pgtype.JSONB{}'', ''pgtype.JSONB''),
     (''date'', ''pgtype.Date{}'', ''pgtype.Date''),
     (''timestamp with time zone'', ''pgtype.Timestamp{}'', ''pgtype.Timestamp''),
     (''time with time zone'', ''pgtype.Timestamp{}'', ''pgtype.Timestamp''),
     (''time without time zone'', ''pgtype.Timestamptz{}'', ''pgtype.Timestamptz''),
     (''timestamp without time zone'', ''pgtype.Timestamptz{}'', ''pgtype.Timestamptz''),
     (''interval'', ''pgtype.Interval{}'', ''pgtype.Interval''),
     (CHR 0x22 # ''char'' @ [CHR 0x22], ''pgtype.QChar{}'', ''pgtype.QChar''),
     (''bit'', ''pgtype.Bit{}'', ''pgtype.Bit''),
     (''uuid'', ''pgtype.UUID{}'', ''pgtype.UUID'')]"

section \<open>More library functions\<close>

datatype NumError = ErrSyntax | ErrRange

definition Atoi :: "string \<Rightarrow> NumError + int" where
  \<comment> \<open>\<open>strconv.Atoi\<close> with a 64-bit \<open>int\<close>: an optional sign, then one or more decimal
      digits and nothing else; a value outside the range of \<open>int\<close> is an error\<close>
  "Atoi s =
    (let neg = (s \<noteq> [] \<and> hd s = CHR ''-'');
         ds = (if s \<noteq> [] \<and> (hd s = CHR ''-'' \<or> hd s = CHR ''+'') then tl s else s)
     in if ds = [] \<or> \<not> list_all isDigit ds then Inl ErrSyntax
        else let n = int (decimal ds); v = (if neg then - n else n)
             in if v < - (2 ^ 63) \<or> 2 ^ 63 \<le> v then Inl ErrRange else Inr v)"

fun natDigits :: "nat \<Rightarrow> string" where
  "natDigits n =
    (if n < 10 then [''0123456789'' ! n]
     else natDigits (n div 10) @ [''0123456789'' ! (n mod 10)])"

declare natDigits.simps [simp del]

definition Itoa :: "int \<Rightarrow> string" where
  \<comment> \<open>what the verb \<open>%d\<close> of \<open>fmt\<close> prints for an \<open>int\<close>\<close>
  "Itoa i = (if i < 0 then ''-'' @ natDigits (nat (- i)) else natDigits (nat i))"

fun Split :: "string \<Rightarrow> char \<Rightarrow> string list" where
  \<comment> \<open>\<open>strings.Split(s, sep)\<close> for a separator of one byte: the pieces between the
      separators, empty pieces included; the empty string gives one empty piece\<close>
  "Split [] sep = [[]]"
| "Split (c # cs) sep =
    (if c = sep then [] # Split cs sep
     else (case Split cs sep of [] \<Rightarrow> [[c]] | t # ts \<Rightarrow> (c # t) # ts))"

fun Join :: "string list \<Rightarrow> string \<Rightarrow> string" where
  \<comment> \<open>\<open>strings.Join(elems, sep)\<close>\<close>
  "Join [] sep = []"
| "Join [x] sep = x"
| "Join (x # y # ys) sep = x @ sep @ Join (y # ys) sep"

section \<open>The catalog query layer\<close>

text \<open>
  The package \<open>models\<close> (the catalog queries and their row types) and the database
  handle are external to the loader.  A value of type \<open>'db\<close> is the state of the database
  behind the handle; each catalog query is a function of it, and \<open>Exec\<close> returns the state
  it leaves.  The functions are parameters of the model, collected in one record.

  Modelled from the spec: the row types \<open>models.Table\<close>, \<open>models.Sequence\<close>,
  \<open>models.IndexColumn\<close> and \<open>models.PgColOrder\<close> are declared in the missing package;
  they have the fields the loader reads or writes (\<open>TableName\<close>, \<open>Type\<close>, \<open>ManualPk\<close>,
  \<open>Cid\<close>, \<open>Ord\<close>) and, for an index column, the name the spec lists.  The type of a
  column row, which the loader only passes on, is the parameter \<open>'col\<close>.
\<close>

record Table =
  Type :: string
  TableName :: string
  ManualPk :: bool

record Sequence =
  SeqTableName :: string   \<comment> \<open>the field \<open>TableName\<close> of \<open>models.Sequence\<close>\<close>

record IndexColumn =
  Cid :: int
  ColumnName :: string

record PgColOrder =
  Ord :: string

record ('db, 'col) models =
  models_PgTables :: "'db \<Rightarrow> string \<Rightarrow> string \<Rightarrow> error + Table list"
  models_PgSequences :: "'db \<Rightarrow> string \<Rightarrow> error + Sequence list"
  models_PgTableColumns :: "'db \<Rightarrow> string \<Rightarrow> string \<Rightarrow> bool \<Rightarrow> error + 'col list"
  models_PgIndexColumns :: "'db \<Rightarrow> string \<Rightarrow> string \<Rightarrow> error + IndexColumn list"
  models_PgGetColOrder :: "'db \<Rightarrow> string \<Rightarrow> string \<Rightarrow> error + PgColOrder"
  DB_Exec :: "'db \<Rightarrow> string \<Rightarrow> error option \<times> 'db"
  DB_Query :: "'db \<Rightarrow> string \<Rightarrow> string list \<Rightarrow> error + string list"

definition QueryRow_Scan :: "error + string list \<Rightarrow> error + string" where
  \<comment> \<open>\<open>db.QueryRow(q, args...).Scan(&s)\<close> of \<open>database/sql\<close> on the rows of a query with
      one text column: the error of the query, \<open>ErrNoRows\<close> when there is no row,
      otherwise the first row (the rest is discarded)\<close>
  "QueryRow_Scan r =
    (case r of
       Inl err \<Rightarrow> Inl err
     | Inr [] \<Rightarrow> Inl ErrNoRows
     | Inr (x # _) \<Rightarrow> Inr x)"

section \<open>PgTables\<close>

fun sequencesLoop :: "Sequence list \<Rightarrow> Table \<Rightarrow> bool \<Rightarrow> bool" where
  \<comment> \<open>the inner loop: every sequence is looked at, a match clears the flag\<close>
  "sequencesLoop [] row manualPk = manualPk"
| "sequencesLoop (sequence # rest) row manualPk =
     sequencesLoop rest row
       (if SeqTableName sequence = TableName row then False else manualPk)"

fun rowsLoop :: "Table list \<Rightarrow> Sequence list \<Rightarrow> Table list \<Rightarrow> Table list" where
  "rowsLoop [] sequences tables = tables"
| "rowsLoop (row # rest) sequences tables =
     rowsLoop rest sequences
       (tables @ [\<lparr>Type = Type row, TableName = TableName row,
                   ManualPk = sequencesLoop sequences row True\<rparr>])"

definition PgTables ::
  "('db, 'col) models \<Rightarrow> 'db \<Rightarrow> string \<Rightarrow> string \<Rightarrow> error + Table list" where
  "PgTables m db schema relkind =
    (case models_PgTables m db schema relkind of
       Inl err \<Rightarrow> Inl err
     | Inr rows \<Rightarrow>
        let sequences = (case models_PgSequences m db schema of
                           Inl err \<Rightarrow> []
                         | Inr sequences \<Rightarrow> sequences)
        in Inr (rowsLoop rows sequences []))"

section \<open>PgQueryColumns\<close>

definition nspq :: string where
  "nspq = ''SELECT n.nspname '' @ ''FROM pg_class c '' @
          ''JOIN pg_namespace n ON n.oid = c.relnamespace '' @
          ''WHERE n.nspname LIKE '' @ [CHR 0x27] @ ''pg_temp%'' @ [CHR 0x27] @
          '' AND c.relname = $1''"

text \<open>
  \<open>randomID\<close> is what \<open>internal.GenRandomID()\<close> returned, \<open>db\<close> the state behind
  \<open>args.DB\<close>.  The result is what the function returns, the state of the database it
  leaves, and the calls of \<open>models.XOLog\<close> it made (the statement with its arguments).
\<close>

definition PgQueryColumns ::
  "('db, 'col) models \<Rightarrow> string \<Rightarrow> 'db \<Rightarrow> string list
     \<Rightarrow> (error + 'col list) \<times> 'db \<times> (string \<times> string list) list" where
  "PgQueryColumns m randomID db inspect =
    (let xoid = ''_xo_'' @ randomID;
         viewq = ''CREATE TEMPORARY VIEW '' @ xoid @ '' AS ('' @ Join inspect [CHR 0x0A] @ '')'';
         log1 = [(viewq, [])];
         (err, db1) = DB_Exec m db viewq
     in case err of
          Some e \<Rightarrow> (Inl e, db1, log1)
        | None \<Rightarrow>
           let log2 = log1 @ [(nspq, [xoid])]
           in (case QueryRow_Scan (DB_Query m db1 nspq [xoid]) of
                 Inl e \<Rightarrow> (Inl e, db1, log2)
               | Inr schema \<Rightarrow> (models_PgTableColumns m db1 schema xoid False, db1, log2)))"

section \<open>PgIndexColumns\<close>

fun findColumn :: "IndexColumn list \<Rightarrow> int \<Rightarrow> IndexColumn option" where
  \<comment> \<open>the inner loop: the first column with the identifier, \<open>None\<close> for \<open>!found\<close>\<close>
  "findColumn [] cid = None"
| "findColumn (ic # rest) cid = (if cid = Cid ic then Some ic else findColumn rest cid)"

fun orderLoop ::
  "string \<Rightarrow> string \<Rightarrow> string \<Rightarrow> IndexColumn list \<Rightarrow> string list \<Rightarrow> IndexColumn list
     \<Rightarrow> error + IndexColumn list" where
  "orderLoop s table index cols [] ret = Inr ret"
| "orderLoop s table index cols (v # vs) ret =
    (case Atoi v of
       Inl err \<Rightarrow>
         Inl (Errorf (''could not convert '' @ s @ table @ '' index '' @ index
                        @ '' column '' @ v @ '' to int''))
     | Inr cid \<Rightarrow>
        (case findColumn cols cid of
           None \<Rightarrow>
             Inl (Errorf (''could not find '' @ s @ table @ '' index '' @ index
                            @ '' column id '' @ Itoa cid))
         | Some c \<Rightarrow> orderLoop s table index cols vs (ret @ [c])))"

definition PgIndexColumns ::
  "('db, 'col) models \<Rightarrow> 'db \<Rightarrow> string \<Rightarrow> string \<Rightarrow> string \<Rightarrow> error + IndexColumn list" where
  "PgIndexColumns m db schema table index =
    (case models_PgIndexColumns m db schema index of
       Inl err \<Rightarrow> Inl err
     | Inr cols \<Rightarrow>
        (case models_PgGetColOrder m db schema index of
           Inl err \<Rightarrow> Inl err
         | Inr colOrd \<Rightarrow>
            let s = (if schema \<noteq> [] then schema @ ''.'' else schema)
            in orderLoop s table index cols (Split (Ord colOrd) CHR '' '') []))"

text \<open>
  The spec counts the "whitespace-separated tokens" of the ordinal string.  This is that
  notion, as \<open>strings.Fields\<close> has it: the maximal runs of bytes that are not white space.
\<close>

definition isSpace :: "char \<Rightarrow> bool" where
  "isSpace c = (c \<in> set [CHR 0x09, CHR 0x0A, CHR 0x0B, CHR 0x0C, CHR 0x0D, CHR 0x20])"

fun ws_pieces :: "string \<Rightarrow> string list" where
  "ws_pieces [] = [[]]"
| "ws_pieces (c # cs) =
    (if isSpace c then [] # ws_pieces cs
     else (case ws_pieces cs of [] \<Rightarrow> [[c]] | t # ts \<Rightarrow> (c # t) # ts))"

definition ws_tokens :: "string \<Rightarrow> string list" where
  "ws_tokens s = filter (\<lambda>t. t \<noteq> []) (ws_pieces s)"

section \<open>PgQueryStrip\<close>

text \<open>
  The pattern is \<open>(?i)::[a-z][a-z0-9_\.]+\s+AS\s+[a-z][a-z0-9_\.]+\<close>.  Go's \<open>regexp\<close>
  reads the line as UTF-8 and, under \<open>(?i)\<close>, folds case by Unicode simple folding: the
  class \<open>[a-z]\<close> then holds the ASCII letters of both cases and the two code points that
  fold to \<open>s\<close> and \<open>k\<close>, U+017F (bytes C5 BF) and U+212A (bytes E2 84 AA), and the
  literal \<open>S\<close> matches U+017F as well.  \<open>\s\<close> is \<open>[\t\n\f\r ]\<close>.  Each of the functions
  below gives the number of bytes of the line that a piece of the pattern matches at the
  head of the line, \<open>0\<close> when it does not match.
\<close>

definition isAsciiLetter :: "char \<Rightarrow> bool" where
  "isAsciiLetter c =
     (c \<in> set ''abcdefghijklmnopqrstuvwxyzABCDEFGHIJKLMNOPQRSTUVWXYZ'')"

definition longS :: string where
  "longS = [CHR 0xC5, CHR 0xBF]"

definition kelvin :: string where
  "kelvin = [CHR 0xE2, CHR 0x84, CHR 0xAA]"

definition letterRune :: "string \<Rightarrow> nat" where
  \<comment> \<open>\<open>(?i)[a-z]\<close>\<close>
  "letterRune s =
    (case s of
       [] \<Rightarrow> 0
     | c # _ \<Rightarrow> if isAsciiLetter c then 1
                else if HasPrefix s longS then 2
                else if HasPrefix s kelvin then 3
                else 0)"

definition identRune :: "string \<Rightarrow> nat" where
  \<comment> \<open>\<open>(?i)[a-z0-9_\.]\<close>\<close>
  "identRune s =
    (case s of
       [] \<Rightarrow> 0
     | c # _ \<Rightarrow> if isDigit c \<or> c = CHR ''_'' \<or> c = CHR ''.'' then 1 else letterRune s)"

definition spaceRune :: "string \<Rightarrow> nat" where
  \<comment> \<open>\<open>\s\<close>\<close>
  "spaceRune s =
    (case s of
       [] \<Rightarrow> 0
     | c # _ \<Rightarrow> if c \<in> set [CHR 0x09, CHR 0x0A, CHR 0x0C, CHR 0x0D, CHR 0x20] then 1 else 0)"

definition keywordAS :: "string \<Rightarrow> nat" where
  \<comment> \<open>\<open>(?i)AS\<close>\<close>
  "keywordAS s =
    (case s of
       [] \<Rightarrow> 0
     | a # r \<Rightarrow>
        if a = CHR ''A'' \<or> a = CHR ''a'' then
          (case r of
             [] \<Rightarrow> 0
           | b # _ \<Rightarrow> if b = CHR ''S'' \<or> b = CHR ''s'' then 2
                      else if HasPrefix r longS then 3
                      else 0)
        else 0)"

fun runLen :: "(string \<Rightarrow> nat) \<Rightarrow> string \<Rightarrow> nat" where
  \<comment> \<open>\<open>x+\<close> for a class \<open>x\<close>: the bytes of the longest run of its members\<close>
  "runLen rune [] = 0"
| "runLen rune (c # cs) =
    (let n = rune (c # cs)
     in if n = 0 then 0 else n + runLen rune (drop (n - 1) cs))"

text \<open>
  A match that begins at the head of the line.  No piece of the pattern can begin with a
  member of the class repeated before it, so each repetition takes its longest run and
  the match at a position, if there is one, is unique up to the last repetition, which
  is greedy.  The result is the length of the match.
\<close>

definition matchHere :: "string \<Rightarrow> nat option" where
  "matchHere s =
    (if \<not> HasPrefix s ''::'' then None else
     let s1 = drop 2 s; a = letterRune s1 in if a = 0 then None else
     let s2 = drop a s1; b = runLen identRune s2 in if b = 0 then None else
     let s3 = drop b s2; c = runLen spaceRune s3 in if c = 0 then None else
     let s4 = drop c s3; d = keywordAS s4 in if d = 0 then None else
     let s5 = drop d s4; e = runLen spaceRune s5 in if e = 0 then None else
     let s6 = drop e s5; f = letterRune s6 in if f = 0 then None else
     let s7 = drop f s6; g = runLen identRune s7 in if g = 0 then None else
     Some (2 + a + b + c + d + e + f + g))"

fun findFrom :: "nat \<Rightarrow> string \<Rightarrow> (nat \<times> nat) option" where
  \<comment> \<open>the leftmost match in a line that is the rest of a longer one from byte \<open>i\<close>\<close>
  "findFrom i [] = None"
| "findFrom i (c # cs) =
    (case matchHere (c # cs) of
       Some n \<Rightarrow> Some (i, i + n)
     | None \<Rightarrow> findFrom (Suc i) cs)"

definition FindStringIndex :: "string \<Rightarrow> (nat \<times> nat) option" where
  \<comment> \<open>\<open>pgQueryStripRE.FindStringIndex(l)\<close>: \<open>None\<close> is \<open>nil\<close>, otherwise \<open>(pos[0], pos[1])\<close>\<close>
  "FindStringIndex l = findFrom 0 l"

text \<open>
  The loop of \<open>PgQueryStrip\<close> from index \<open>i\<close> on.  The two slices are changed in place;
  the result is their final contents, or the panic of the write to
  \<open>queryComments[i+1]\<close> when that slice is too short.
\<close>

function PgQueryStrip_from ::
  "nat \<Rightarrow> string list \<Rightarrow> string list \<Rightarrow> panic + string list \<times> string list" where
  "PgQueryStrip_from i query queryComments =
    (if i < length query then
       let l = query ! i
       in (case FindStringIndex l of
             Some (p0, p1) \<Rightarrow>
               let query' = query[i := take p0 l @ drop p1 l]
               in if i + 1 < length queryComments
                  then PgQueryStrip_from (i + 1) query'
                         (queryComments[i + 1 := take (p1 - p0) (drop p0 l)])
                  else Inl (IndexOutOfRange (i + 1) (length queryComments))
           | None \<Rightarrow>
               if i + 1 < length queryComments
               then PgQueryStrip_from (i + 1) query (queryComments[i + 1 := []])
               else Inl (IndexOutOfRange (i + 1) (length queryComments)))
     else Inr (query, queryComments))"
  by pat_completeness auto
termination
  by (relation "measure (\<lambda>(i, query, queryComments). length query - i)") auto

declare PgQueryStrip_from.simps [simp del]

definition PgQueryStrip :: "string list \<Rightarrow> string list \<Rightarrow> panic + string list \<times> string list" where
  "PgQueryStrip query queryComments = PgQueryStrip_from 0 query queryComments"

text \<open>
  What one turn of the loop does to the line \<open>l\<close> it visits: the line it stores back,
  and the comment it records.
\<close>

definition stripLine :: "string \<Rightarrow> string" where
  "stripLine l = (case FindStringIndex l of None \<Rightarrow> l | Some (p0, p1) \<Rightarrow> take p0 l @ drop p1 l)"

definition removedText :: "string \<Rightarrow> string" where
  "removedText l =
     (case FindStringIndex l of None \<Rightarrow> [] | Some (p0, p1) \<Rightarrow> take (p1 - p0) (drop p0 l))"

section \<open>A database layer with fixed answers\<close>

text \<open>
  For concrete runs: every catalog query answers with the value given for it, whatever it
  is asked; the state of the database is the list of the statements executed so far.
\<close>

definition fixed_models ::
  "error + Table list \<Rightarrow> error + Sequence list \<Rightarrow> error + string list
     \<Rightarrow> error + IndexColumn list \<Rightarrow> error + PgColOrder
     \<Rightarrow> error option \<Rightarrow> error + string list \<Rightarrow> (string list, string) models" where
  "fixed_models tables sequences columns indexColumns colOrder execErr rows =
    \<lparr>models_PgTables = (\<lambda>db schema relkind. tables),
     models_PgSequences = (\<lambda>db schema. sequences),
     models_PgTableColumns = (\<lambda>db schema table sysOIDs. columns),
     models_PgIndexColumns = (\<lambda>db schema index. indexColumns),
     models_PgGetColOrder = (\<lambda>db schema index. colOrder),
     DB_Exec = (\<lambda>db q. (execErr, if execErr = None then db @ [q] else db)),
     DB_Query = (\<lambda>db q params. rows)\<rparr>"

section \<open>Properties of the type translation\<close>

lemma HasPrefix_Cons_hd: "HasPrefix s (c # p) \<Longrightarrow> s \<noteq> [] \<and> hd s = c"
  by (cases s) (auto simp: HasPrefix_def)

lemma HasSuffix_last: "HasSuffix s p \<Longrightarrow> p \<noteq> [] \<Longrightarrow> s \<noteq> [] \<and> last s = last p"
proof -
  assume h: "HasSuffix s p" and ne: "p \<noteq> []"
  from h have "s = take (length s - length p) s @ p"
    by (metis HasSuffix_def append_take_drop_id)
  with ne show ?thesis by (metis append_is_Nil_conv last_appendR)
qed

lemma PgParseType_plain:
  assumes "\<not> HasPrefix dt ''SETOF ''" "\<not> HasSuffix dt ''[]''"
    and "ParsePrecision args dt = (dt', p, s)"
  shows "PgParseType args snake dt b = (p, nonSliceDt snake dt')"
  using assms by (subst PgParseType.simps) (simp split: prod.splits)

lemma family_table_all:
  "list_all (\<lambda>(dt, z, t). dt \<noteq> [] \<and> hd dt \<noteq> CHR ''S'' \<and> last dt \<noteq> CHR '']''
               \<and> last dt \<noteq> CHR '')'' \<and> nonSliceDt snake dt = (z, t)) family_table"
  unfolding family_table_def nonSliceDt_def by simp

lemma family_table_shape:
  assumes "(dt, z, t) \<in> set family_table"
  shows "dt \<noteq> []" "hd dt \<noteq> CHR ''S''" "last dt \<noteq> CHR '']''" "last dt \<noteq> CHR '')''"
  using assms family_table_all[of snake] unfolding list_all_iff by blast+

lemma family_table_nonSliceDt:
  assumes "(dt, z, t) \<in> set family_table"
  shows "nonSliceDt snake dt = (z, t)"
  using assms family_table_all[of snake] unfolding list_all_iff by blast

lemma not_isDigit_paren: "\<not> isDigit CHR ''(''" "\<not> isDigit CHR '',''"
  by (simp_all add: isDigit_def)

lemma ParsePrecision_spec_none:
  assumes "dt \<noteq> []" "last dt \<noteq> CHR '')''"
  shows "ParsePrecision_spec dt = (dt, 0, 0)"
proof -
  from assms have "hd (rev dt) \<noteq> CHR '')''" "rev dt \<noteq> []" by (simp_all add: hd_rev)
  then have "parseQualifierRev (rev dt) = None"
    by (cases "rev dt") (auto simp: parseQualifierRev_def)
  then show ?thesis by (simp add: ParsePrecision_spec_def)
qed

lemma ParsePrecision_spec_prec:
  assumes "ds \<noteq> []" "list_all isDigit ds"
  shows "ParsePrecision_spec (dt @ ''('' @ ds @ '')'') = (dt, int (decimal ds), 0)"
proof -
  have r: "rev (dt @ ''('' @ ds @ '')'') = CHR '')'' # (rev ds @ CHR ''('' # rev dt)" by simp
  from assms(2) have d: "\<And>x. x \<in> set (rev ds) \<Longrightarrow> isDigit x" by (simp add: list_all_iff)
  have tw: "takeWhile isDigit (rev ds @ CHR ''('' # rev dt) = rev ds"
    by (subst takeWhile_append2) (use d in \<open>auto simp: not_isDigit_paren\<close>)
  have dw: "dropWhile isDigit (rev ds @ CHR ''('' # rev dt) = CHR ''('' # rev dt"
    by (subst dropWhile_append2) (use d in \<open>auto simp: not_isDigit_paren\<close>)
  show ?thesis
    unfolding ParsePrecision_spec_def r
    using assms(1) by (simp add: parseQualifierRev_def tw dw)
qed

lemma ParsePrecision_spec_prec_scale:
  assumes "ds \<noteq> []" "list_all isDigit ds" "ss \<noteq> []" "list_all isDigit ss"
  shows "ParsePrecision_spec (dt @ ''('' @ ds @ '','' @ ss @ '')'')
           = (dt, int (decimal ds), int (decimal ss))"
proof -
  have r: "rev (dt @ ''('' @ ds @ '','' @ ss @ '')'')
             = CHR '')'' # (rev ss @ CHR '','' # (rev ds @ CHR ''('' # rev dt))" by simp
  from assms(2) have d: "\<And>x. x \<in> set (rev ds) \<Longrightarrow> isDigit x" by (simp add: list_all_iff)
  from assms(4) have s: "\<And>x. x \<in> set (rev ss) \<Longrightarrow> isDigit x" by (simp add: list_all_iff)
  have tw2: "takeWhile isDigit (rev ss @ CHR '','' # (rev ds @ CHR ''('' # rev dt)) = rev ss"
    by (subst takeWhile_append2) (use s in \<open>auto simp: not_isDigit_paren\<close>)
  have dw2: "dropWhile isDigit (rev ss @ CHR '','' # (rev ds @ CHR ''('' # rev dt))
               = CHR '','' # (rev ds @ CHR ''('' # rev dt)"
    by (subst dropWhile_append2) (use s in \<open>auto simp: not_isDigit_paren\<close>)
  have tw: "takeWhile isDigit (rev ds @ CHR ''('' # rev dt) = rev ds"
    by (subst takeWhile_append2) (use d in \<open>auto simp: not_isDigit_paren\<close>)
  have dw: "dropWhile isDigit (rev ds @ CHR ''('' # rev dt) = CHR ''('' # rev dt"
    by (subst dropWhile_append2) (use d in \<open>auto simp: not_isDigit_paren\<close>)
  show ?thesis
    unfolding ParsePrecision_spec_def r
    using assms(1,3) by (simp add: parseQualifierRev_def tw dw tw2 dw2)
qed

lemma family_not_SETOF:
  assumes "(dt, z, t) \<in> set family_table"
  shows "\<not> HasPrefix (dt @ x) ''SETOF ''"
proof
  assume "HasPrefix (dt @ x) ''SETOF ''"
  then have "hd (dt @ x) = CHR ''S''" using HasPrefix_Cons_hd by fastforce
  with family_table_shape(1,2)[OF assms] show False by simp
qed

lemma not_HasSuffix_paren: "\<not> HasSuffix (x @ '')'') ''[]''"
  using HasSuffix_last[of "x @ '')''" "''[]''"] by auto

text \<open>
  Claim C2.  For every native type string of the family table, and either nullability
  flag, \<open>PgParseType\<close> returns the canonical pair of its family with precision \<open>0\<close>;
  with a parenthesized qualifier \<open>(p)\<close> or \<open>(p,s)\<close> after the name the pair is the same
  and the precision is the qualifier's leading integer \<open>p\<close>.  The precision is what the
  spec's \<open>ParsePrecision\<close> extracts.
\<close>

theorem PgParseType_family_table:
  assumes "(dt, zero, typ) \<in> set family_table"
  shows "PgParseType args_spec snake dt nullable = (0, zero, typ)
       \<and> (ds \<noteq> [] \<and> list_all isDigit ds \<longrightarrow>
            PgParseType args_spec snake (dt @ ''('' @ ds @ '')'') nullable
              = (int (decimal ds), zero, typ))
       \<and> (ds \<noteq> [] \<and> list_all isDigit ds \<and> ss \<noteq> [] \<and> list_all isDigit ss \<longrightarrow>
            PgParseType args_spec snake (dt @ ''('' @ ds @ '','' @ ss @ '')'') nullable
              = (int (decimal ds), zero, typ))"
proof (intro conjI impI)
  note sh = family_table_shape[OF assms]
  note ns = family_table_nonSliceDt[OF assms]
  have np: "\<not> HasPrefix dt ''SETOF ''" using family_not_SETOF[OF assms, of "[]"] by simp
  have nsf: "\<not> HasSuffix dt ''[]''" using HasSuffix_last[of dt "''[]''"] sh by auto
  have "ParsePrecision args_spec dt = (dt, 0, 0)"
    using ParsePrecision_spec_none sh by (simp add: args_spec_def)
  from PgParseType_plain[OF np nsf this] show "PgParseType args_spec snake dt nullable = (0, zero, typ)"
    by (simp add: ns)
next
  assume h: "ds \<noteq> [] \<and> list_all isDigit ds"
  let ?s = "dt @ ''('' @ ds @ '')''"
  have np: "\<not> HasPrefix ?s ''SETOF ''" by (rule family_not_SETOF[OF assms])
  have nsf: "\<not> HasSuffix ?s ''[]''" using not_HasSuffix_paren[of "dt @ ''('' @ ds"] by simp
  have "ParsePrecision args_spec ?s = (dt, int (decimal ds), 0)"
    using ParsePrecision_spec_prec h by (simp add: args_spec_def)
  from PgParseType_plain[OF np nsf this]
  show "PgParseType args_spec snake ?s nullable = (int (decimal ds), zero, typ)"
    by (simp add: family_table_nonSliceDt[OF assms])
next
  assume h: "ds \<noteq> [] \<and> list_all isDigit ds \<and> ss \<noteq> [] \<and> list_all isDigit ss"
  let ?s = "dt @ ''('' @ ds @ '','' @ ss @ '')''"
  have np: "\<not> HasPrefix ?s ''SETOF ''" by (rule family_not_SETOF[OF assms])
  have nsf: "\<not> HasSuffix ?s ''[]''"
    using not_HasSuffix_paren[of "dt @ ''('' @ ds @ '','' @ ss"] by simp
  have "ParsePrecision args_spec ?s = (dt, int (decimal ds), int (decimal ss))"
    using ParsePrecision_spec_prec_scale h by (simp add: args_spec_def)
  from PgParseType_plain[OF np nsf this]
  show "PgParseType args_spec snake ?s nullable = (int (decimal ds), zero, typ)"
    by (simp add: family_table_nonSliceDt[OF assms])
qed

theorem PgParseType_family_table_witness:
  "(''character varying'', ''pgtype.Text{}'', ''pgtype.Text'') \<in> set family_table
   \<and> (''numeric'', ''pgtype.Float8{}'', ''pgtype.Float8'') \<in> set family_table
   \<and> PgParseType args_spec id ''character varying'' False
         = (0, ''pgtype.Text{}'', ''pgtype.Text'')
   \<and> PgParseType args_spec id ''numeric(10,2)'' True
         = (10, ''pgtype.Float8{}'', ''pgtype.Float8'')
   \<and> PgParseType args_spec id ''character varying(255)'' False
         = (255, ''pgtype.Text{}'', ''pgtype.Text'')"
proof -
  have a: "(''character varying'', ''pgtype.Text{}'', ''pgtype.Text'') \<in> set family_table"
    by (simp add: family_table_def)
  have b: "(''numeric'', ''pgtype.Float8{}'', ''pgtype.Float8'') \<in> set family_table"
    by (simp add: family_table_def)
  have d: "''10'' \<noteq> [] \<and> list_all isDigit ''10'' \<and> ''2'' \<noteq> [] \<and> list_all isDigit ''2''"
    "''255'' \<noteq> [] \<and> list_all isDigit ''255''"
    by (simp_all add: isDigit_def)
  have v: "int (decimal ''10'') = 10" "int (decimal ''255'') = 255"
    by (simp_all add: decimal_def digitVal_def)
  show ?thesis
    using PgParseType_family_table[OF a, of id False "''255''" "[]"]
          PgParseType_family_table[OF b, of id True "''10''" "''2''"] a b d v
    by simp
qed

text \<open>
  Claim C3.  For every type string that begins with \<open>SETOF \<close>, and either nullability
  flag, \<open>PgParseType\<close> returns precision \<open>0\<close>, the zero value \<open>nil\<close> and, as type name,
  \<open>[]\<close> before the type name of the translation of the rest with nullability \<open>false\<close>.
\<close>

theorem PgParseType_SETOF:
  "PgParseType args snake (''SETOF '' @ rest) nullable =
     (0, ''nil'', ''[]'' @ snd (snd (PgParseType args snake rest False)))"
  by (subst PgParseType.simps) (simp add: HasPrefix_def split: prod.splits)

text \<open>
  Claim C5.  Whenever \<open>ParsePrecision\<close> leaves the name as it is, \<open>PgParseType\<close> maps
  \<open>timestamp with time zone\<close> and \<open>time with time zone\<close> to \<open>pgtype.Timestamp\<close>, and
  \<open>timestamp without time zone\<close> and \<open>time without time zone\<close> to \<open>pgtype.Timestamptz\<close>.
\<close>

theorem PgParseType_time_zone_cross_mapping:
  assumes "ParsePrecision args dt = (dt, p, s)"
  shows "(dt = ''timestamp with time zone'' \<or> dt = ''time with time zone'' \<longrightarrow>
            PgParseType args snake dt nullable = (p, ''pgtype.Timestamp{}'', ''pgtype.Timestamp''))
       \<and> (dt = ''timestamp without time zone'' \<or> dt = ''time without time zone'' \<longrightarrow>
            PgParseType args snake dt nullable
              = (p, ''pgtype.Timestamptz{}'', ''pgtype.Timestamptz''))"
proof -
  have "PgParseType args snake dt nullable = (p, nonSliceDt snake dt)"
    if "\<not> HasPrefix dt ''SETOF ''" "\<not> HasSuffix dt ''[]''"
    using PgParseType_plain[OF that assms] .
  then show ?thesis
    by (auto simp: HasPrefix_def HasSuffix_def nonSliceDt_def)
qed

theorem PgParseType_time_zone_cross_mapping_witness:
  "ParsePrecision args_spec ''timestamp with time zone'' = (''timestamp with time zone'', 0, 0)
   \<and> PgParseType args_spec id ''timestamp with time zone'' True
        = (0, ''pgtype.Timestamp{}'', ''pgtype.Timestamp'')
   \<and> ParsePrecision args_spec ''time without time zone'' = (''time without time zone'', 0, 0)
   \<and> PgParseType args_spec id ''time without time zone'' True
        = (0, ''pgtype.Timestamptz{}'', ''pgtype.Timestamptz'')"
proof -
  have a: "ParsePrecision args_spec ''timestamp with time zone''
             = (''timestamp with time zone'', 0, 0)"
    by (simp add: args_spec_def ParsePrecision_spec_def parseQualifierRev_def)
  have b: "ParsePrecision args_spec ''time without time zone''
             = (''time without time zone'', 0, 0)"
    by (simp add: args_spec_def ParsePrecision_spec_def parseQualifierRev_def)
  show ?thesis
    using PgParseType_time_zone_cross_mapping[OF a, of id True]
          PgParseType_time_zone_cross_mapping[OF b, of id True] a b
    by simp
qed

text \<open>
  Claim C4.  At \<open>integer[]\<close> the type name is \<open>[]\<close> before the native name
  \<open>integer\<close>, not before \<open>pgtype.Int4\<close>, the canonical translation of \<open>integer\<close>;
  \<open>uuid[]\<close> has its own array type.
\<close>

theorem PgParseType_array_wraps_native_name:
  "PgParseType args_spec id ''integer[]'' False = (0, ''[]integer{}'', ''[]integer'')
   \<and> PgParseType args_spec id ''integer'' False = (0, ''pgtype.Int4{}'', ''pgtype.Int4'')
   \<and> PgParseType args_spec id ''SETOF integer'' False = (0, ''nil'', ''[]pgtype.Int4'')
   \<and> PgParseType args_spec id ''uuid[]'' False
        = (0, ''pgtype.UUIDArray{}'', ''pgtype.UUIDArray'')"
  by (simp add: PgParseType.simps HasPrefix_def HasSuffix_def args_spec_def
        ParsePrecision_spec_def parseQualifierRev_def nonSliceDt_def sliceDt_def)

text \<open>
  Claim C10.  The result of \<open>PgParseType\<close> does not depend on its \<open>nullable\<close> argument.
\<close>

theorem PgParseType_nullable_irrelevant:
  "PgParseType args snake dt b1 = PgParseType args snake dt b2"
  by (subst PgParseType.simps, subst (2) PgParseType.simps) simp

section \<open>Properties of the relation-kind mapper\<close>

text \<open>
  Claim C9.  \<open>PgRelkind\<close> returns \<open>r\<close> for \<open>Table\<close> and \<open>v\<close> for \<open>View\<close>; for every
  other value it panics; for a value in \<open>{Table, View}\<close> it returns.
\<close>

theorem PgRelkind_total:
  "PgRelkind Table = Inr ''r'' \<and> PgRelkind View = Inr ''v''
   \<and> (k \<notin> {Table, View} \<longrightarrow> PgRelkind k = Inl (Panic ''unsupported RelType''))
   \<and> (k \<in> {Table, View} \<longrightarrow> (\<exists>s. PgRelkind k = Inr s))"
  by (cases k) auto

theorem PgRelkind_total_witness:
  "Undeclared 2 \<notin> {Table, View}
   \<and> PgRelkind (Undeclared 2) = Inl (Panic ''unsupported RelType'')
   \<and> View \<in> {Table, View} \<and> (\<exists>s. PgRelkind View = Inr s)"
  using PgRelkind_total[of "Undeclared 2"] PgRelkind_total[of View] by simp

section \<open>Properties of the table enumerator and of the query shape discoverer\<close>

lemma sequencesLoop_eq:
  "sequencesLoop sequences row b
     = (b \<and> (\<forall>s \<in> set sequences. SeqTableName s \<noteq> TableName row))"
  by (induction sequences arbitrary: b) auto

lemma rowsLoop_eq:
  "rowsLoop rows sequences tables
     = tables @ map (\<lambda>row. \<lparr>Type = Type row, TableName = TableName row,
                             ManualPk = (\<forall>s \<in> set sequences. SeqTableName s \<noteq> TableName row)\<rparr>) rows"
  by (induction rows arbitrary: tables) (simp_all add: sequencesLoop_eq)

text \<open>
  Claim C6.  When the fetch of the relations succeeds, \<open>PgTables\<close> returns one table
  for each row, in the order of the rows, with the row's name and type, and with
  \<open>ManualPk\<close> true unless the table name of some fetched sequence is the row's name.
  When the fetch of the sequences fails the call still succeeds, and every table has
  \<open>ManualPk\<close> true.
\<close>

theorem PgTables_manual_primary_key:
  assumes "models_PgTables m db schema relkind = Inr rows"
  shows "(\<forall>sequences. models_PgSequences m db schema = Inr sequences \<longrightarrow>
            PgTables m db schema relkind
              = Inr (map (\<lambda>row. \<lparr>Type = Type row, TableName = TableName row,
                                  ManualPk = (\<not> (\<exists>s \<in> set sequences.
                                                 SeqTableName s = TableName row))\<rparr>) rows))
       \<and> (\<forall>err. models_PgSequences m db schema = Inl err \<longrightarrow>
            PgTables m db schema relkind
              = Inr (map (\<lambda>row. \<lparr>Type = Type row, TableName = TableName row,
                                  ManualPk = True\<rparr>) rows))"
  using assms by (simp add: PgTables_def rowsLoop_eq)

theorem PgTables_manual_primary_key_witness:
  "PgTables
     (fixed_models
        (Inr [\<lparr>Type = ''r'', TableName = ''orders'', ManualPk = False\<rparr>,
              \<lparr>Type = ''r'', TableName = ''order_items'', ManualPk = False\<rparr>])
        (Inr [\<lparr>SeqTableName = ''order_items''\<rparr>])
        (Inr []) (Inr []) (Inr \<lparr>Ord = ''''\<rparr>) None (Inr []))
     [] ''public'' ''r''
   = Inr [\<lparr>Type = ''r'', TableName = ''orders'', ManualPk = True\<rparr>,
          \<lparr>Type = ''r'', TableName = ''order_items'', ManualPk = False\<rparr>]
   \<and> PgTables
     (fixed_models
        (Inr [\<lparr>Type = ''r'', TableName = ''orders'', ManualPk = False\<rparr>,
              \<lparr>Type = ''r'', TableName = ''order_items'', ManualPk = False\<rparr>])
        (Inl (DbError ''permission denied''))
        (Inr []) (Inr []) (Inr \<lparr>Ord = ''''\<rparr>) None (Inr []))
     [] ''public'' ''r''
   = Inr [\<lparr>Type = ''r'', TableName = ''orders'', ManualPk = True\<rparr>,
          \<lparr>Type = ''r'', TableName = ''order_items'', ManualPk = True\<rparr>]"
  using PgTables_manual_primary_key
          [of "fixed_models
                 (Inr [\<lparr>Type = ''r'', TableName = ''orders'', ManualPk = False\<rparr>,
                       \<lparr>Type = ''r'', TableName = ''order_items'', ManualPk = False\<rparr>])
                 (Inr [\<lparr>SeqTableName = ''order_items''\<rparr>])
                 (Inr []) (Inr []) (Inr \<lparr>Ord = ''''\<rparr>) None (Inr [])"
              "[]" "''public''" "''r''"
              "[\<lparr>Type = ''r'', TableName = ''orders'', ManualPk = False\<rparr>,
                \<lparr>Type = ''r'', TableName = ''order_items'', ManualPk = False\<rparr>]"]
        PgTables_manual_primary_key
          [of "fixed_models
                 (Inr [\<lparr>Type = ''r'', TableName = ''orders'', ManualPk = False\<rparr>,
                       \<lparr>Type = ''r'', TableName = ''order_items'', ManualPk = False\<rparr>])
                 (Inl (DbError ''permission denied''))
                 (Inr []) (Inr []) (Inr \<lparr>Ord = ''''\<rparr>) None (Inr [])"
              "[]" "''public''" "''r''"
              "[\<lparr>Type = ''r'', TableName = ''orders'', ManualPk = False\<rparr>,
                \<lparr>Type = ''r'', TableName = ''order_items'', ManualPk = False\<rparr>]"]
  by (simp add: fixed_models_def)

text \<open>
  Claim C7, as amended.  With \<open>err\<close> and \<open>db1\<close> what the statement that defines the
  view returns and leaves: if it fails, the call fails with its error; otherwise, if the
  namespace query fails, the call fails with that error, and if it gives no row, with
  \<open>ErrNoRows\<close>; otherwise the call returns what the column listing returns for the schema
  of the first row and the generated name, its error included.  The error is the step's
  own, with nothing added.
\<close>

theorem PgQueryColumns_steps:
  assumes "xoid = ''_xo_'' @ randomID"
    and "viewq = ''CREATE TEMPORARY VIEW '' @ xoid @ '' AS ('' @ Join inspect [CHR 0x0A] @ '')''"
    and "DB_Exec m db viewq = (err, db1)"
  shows "(\<forall>e. err = Some e \<longrightarrow> fst (PgQueryColumns m randomID db inspect) = Inl e)
       \<and> (err = None \<longrightarrow>
            (\<forall>e. DB_Query m db1 nspq [xoid] = Inl e \<longrightarrow>
                   fst (PgQueryColumns m randomID db inspect) = Inl e)
          \<and> (DB_Query m db1 nspq [xoid] = Inr [] \<longrightarrow>
                   fst (PgQueryColumns m randomID db inspect) = Inl ErrNoRows)
          \<and> (\<forall>schema more. DB_Query m db1 nspq [xoid] = Inr (schema # more) \<longrightarrow>
                   fst (PgQueryColumns m randomID db inspect)
                     = models_PgTableColumns m db1 schema xoid False))"
  using assms by (auto simp: PgQueryColumns_def QueryRow_Scan_def Let_def)


text \<open>
  Claim C7 as stated fails twice.  A namespace lookup with two rows is not a failure: the
  call returns the column listing.  And the failure of the call is the bare error of the
  step: the same error from the view definition, from the namespace lookup and from the
  column listing gives the same result, which therefore does not tell the step.
\<close>

theorem PgQueryColumns_counterexample:
  "fst (PgQueryColumns
          (fixed_models (Inr []) (Inr []) (Inr [''id'', ''name'']) (Inr []) (Inr \<lparr>Ord = ''''\<rparr>)
             None (Inr [''pg_temp_3'', ''pg_temp_4'']))
          ''abc'' [] [''SELECT 1''])
     = Inr [''id'', ''name'']
   \<and> fst (PgQueryColumns
          (fixed_models (Inr []) (Inr []) (Inr [''id'', ''name'']) (Inr []) (Inr \<lparr>Ord = ''''\<rparr>)
             (Some (DbError ''connection reset'')) (Inr [''pg_temp_3'']))
          ''abc'' [] [''SELECT 1''])
     = Inl (DbError ''connection reset'')
   \<and> fst (PgQueryColumns
          (fixed_models (Inr []) (Inr []) (Inr [''id'', ''name'']) (Inr []) (Inr \<lparr>Ord = ''''\<rparr>)
             None (Inl (DbError ''connection reset'')))
          ''abc'' [] [''SELECT 1''])
     = Inl (DbError ''connection reset'')
   \<and> fst (PgQueryColumns
          (fixed_models (Inr []) (Inr []) (Inl (DbError ''connection reset'')) (Inr [])
             (Inr \<lparr>Ord = ''''\<rparr>) None (Inr [''pg_temp_3'']))
          ''abc'' [] [''SELECT 1''])
     = Inl (DbError ''connection reset'')"
  by (simp add: PgQueryColumns_def fixed_models_def QueryRow_Scan_def Let_def)

theorem PgQueryColumns_steps_witness:
  "fst (PgQueryColumns
          (fixed_models (Inr []) (Inr []) (Inr [''id'', ''name'']) (Inr []) (Inr \<lparr>Ord = ''''\<rparr>)
             None (Inr [''pg_temp_3'']))
          ''abc'' [] [''SELECT 1'', ''FROM t''])
     = Inr [''id'', ''name'']"
proof -
  let ?m = "fixed_models (Inr []) (Inr []) (Inr [''id'', ''name'']) (Inr [])
              (Inr \<lparr>Ord = ''''\<rparr>) None (Inr [''pg_temp_3''])"
  let ?viewq = "''CREATE TEMPORARY VIEW '' @ (''_xo_'' @ ''abc'') @ '' AS (''
                  @ Join [''SELECT 1'', ''FROM t''] [CHR 0x0A] @ '')''"
  have e: "DB_Exec ?m [] ?viewq = (None, [?viewq])"
    by (simp add: fixed_models_def)
  have q: "DB_Query ?m [?viewq] nspq [''_xo_'' @ ''abc''] = Inr [''pg_temp_3'']"
    by (simp add: fixed_models_def)
  have c: "models_PgTableColumns ?m [?viewq] ''pg_temp_3'' (''_xo_'' @ ''abc'') False
             = Inr [''id'', ''name'']"
    by (simp add: fixed_models_def)
  from PgQueryColumns_steps[OF refl refl e] q c show ?thesis by simp
qed

section \<open>Properties of the index column orderer\<close>

lemma findColumn_find: "findColumn cols cid = List.find (\<lambda>ic. Cid ic = cid) cols"
  by (induction cols) auto

lemma findColumn_None: "findColumn cols cid = None \<longleftrightarrow> (\<forall>ic \<in> set cols. Cid ic \<noteq> cid)"
  by (induction cols) auto

lemma isDigit_not_isSpace: "isDigit c \<Longrightarrow> \<not> isSpace c"
  by (auto simp: isDigit_def isSpace_def)

lemma Atoi_Inr_shape:
  assumes "Atoi v = Inr cid"
  shows "v \<noteq> []" and "\<forall>c \<in> set v. \<not> isSpace c"
proof -
  let ?ds = "if v \<noteq> [] \<and> (hd v = CHR ''-'' \<or> hd v = CHR ''+'') then tl v else v"
  from assms have ds: "?ds \<noteq> []" "list_all isDigit ?ds"
    by (auto simp: Atoi_def Let_def split: if_splits)
  from ds(1) show "v \<noteq> []" by (auto split: if_splits)
  show "\<forall>c \<in> set v. \<not> isSpace c"
  proof (cases "v \<noteq> [] \<and> (hd v = CHR ''-'' \<or> hd v = CHR ''+'')")
    case True
    then obtain h t where v: "v = h # t" "h = CHR ''-'' \<or> h = CHR ''+''" by (cases v) auto
    with ds(2) have "list_all isDigit t" by simp
    then have "\<forall>c \<in> set t. \<not> isSpace c" by (auto simp: list_all_iff isDigit_not_isSpace)
    moreover from v(2) have "\<not> isSpace h" by (auto simp: isSpace_def)
    ultimately show ?thesis using v(1) by simp
  next
    case False
    with ds(2) have "list_all isDigit v" by (simp split: if_splits)
    then show ?thesis by (auto simp: list_all_iff isDigit_not_isSpace)
  qed
qed

lemma Split_not_Nil: "Split s sep \<noteq> []"
  by (induction s) (auto split: list.splits)

lemma ws_pieces_eq_Split:
  assumes "\<forall>v \<in> set (Split s CHR '' ''). \<forall>c \<in> set v. \<not> isSpace c"
  shows "ws_pieces s = Split s CHR '' ''"
  using assms
proof (induction s)
  case Nil
  then show ?case by simp
next
  case (Cons c cs)
  obtain t ts where sp: "Split cs CHR '' '' = t # ts"
    using Split_not_Nil[of cs "CHR '' ''"] by (cases "Split cs CHR '' ''") auto
  show ?case
  proof (cases "c = CHR '' ''")
    case True
    with Cons.prems have "\<forall>v \<in> set (Split cs CHR '' ''). \<forall>c \<in> set v. \<not> isSpace c" by simp
    from Cons.IH[OF this] True show ?thesis by (simp add: isSpace_def)
  next
    case False
    with Cons.prems sp have p: "\<not> isSpace c" "\<forall>c \<in> set t. \<not> isSpace c"
      "\<forall>v \<in> set ts. \<forall>c \<in> set v. \<not> isSpace c" by auto
    with sp have "\<forall>v \<in> set (Split cs CHR '' ''). \<forall>c \<in> set v. \<not> isSpace c" by simp
    from Cons.IH[OF this] False p(1) sp show ?thesis by simp
  qed
qed

lemma ws_tokens_eq_Split:
  assumes "\<forall>v \<in> set (Split s CHR '' ''). \<exists>cid. Atoi v = Inr cid"
  shows "ws_tokens s = Split s CHR '' ''"
proof -
  from assms have a: "\<forall>v \<in> set (Split s CHR '' ''). v \<noteq> [] \<and> (\<forall>c \<in> set v. \<not> isSpace c)"
    using Atoi_Inr_shape by blast
  then have "ws_pieces s = Split s CHR '' ''" by (intro ws_pieces_eq_Split) blast
  with a show ?thesis by (simp add: ws_tokens_def filter_id_conv)
qed

lemma orderLoop_Inr:
  assumes "orderLoop s table index cols vs ret = Inr out"
  shows "\<exists>found. out = ret @ found
           \<and> list_all2 (\<lambda>v c. \<exists>cid. Atoi v = Inr cid \<and> findColumn cols cid = Some c) vs found"
  using assms
proof (induction vs arbitrary: ret)
  case Nil
  then show ?case by simp
next
  case (Cons v vs)
  from Cons.prems obtain cid c where
    a: "Atoi v = Inr cid" and f: "findColumn cols cid = Some c"
    and r: "orderLoop s table index cols vs (ret @ [c]) = Inr out"
    by (auto split: sum.splits option.splits)
  from Cons.IH[OF r] obtain found where
    "out = (ret @ [c]) @ found"
    "list_all2 (\<lambda>v c. \<exists>cid. Atoi v = Inr cid \<and> findColumn cols cid = Some c) vs found"
    by blast
  with a f show ?case by (intro exI[of _ "c # found"]) simp
qed

lemma orderLoop_Inl:
  assumes "orderLoop s table index cols vs ret = Inl err"
  shows "(\<exists>v \<in> set vs. (\<exists>e. Atoi v = Inl e)
            \<and> err = Errorf (''could not convert '' @ s @ table @ '' index '' @ index
                             @ '' column '' @ v @ '' to int''))
       \<or> (\<exists>v \<in> set vs. \<exists>cid. Atoi v = Inr cid \<and> findColumn cols cid = None
            \<and> err = Errorf (''could not find '' @ s @ table @ '' index '' @ index
                             @ '' column id '' @ Itoa cid))"
  using assms
proof (induction vs arbitrary: ret)
  case Nil
  then show ?case by simp
next
  case (Cons v vs)
  show ?case
  proof (cases "Atoi v")
    case (Inl e)
    with Cons.prems show ?thesis by auto
  next
    case (Inr cid)
    show ?thesis
    proof (cases "findColumn cols cid")
      case None
      with Inr Cons.prems show ?thesis by auto
    next
      case (Some c)
      with Inr Cons.prems have "orderLoop s table index cols vs (ret @ [c]) = Inl err" by simp
      from Cons.IH[OF this] show ?thesis by auto
    qed
  qed
qed

text \<open>
  Claim C1, as amended.  \<open>PgIndexColumns\<close> fails with the error of a failed fetch, or
  returns as many columns as the ordinal string has whitespace-separated tokens, the
  column at position \<open>j\<close> being the first fetched column whose \<open>Cid\<close> is the \<open>j\<close>-th
  token read as an integer, or fails at a token: with the \<open>could not convert\<close> error that
  names the schema-qualified table, the index and the token that is not an integer, or
  with the \<open>could not find\<close> error that names them and the identifier no fetched column
  has.  Here \<open>s\<close> is the schema followed by a dot, or empty for an empty schema.
\<close>

theorem PgIndexColumns_ordered_or_fails:
  assumes "s = (if schema \<noteq> [] then schema @ ''.'' else schema)"
  shows
    "(\<exists>err. PgIndexColumns m db schema table index = Inl err
        \<and> (models_PgIndexColumns m db schema index = Inl err
            \<or> (\<exists>cols. models_PgIndexColumns m db schema index = Inr cols)
               \<and> models_PgGetColOrder m db schema index = Inl err))
     \<or> (\<exists>cols colOrd.
          models_PgIndexColumns m db schema index = Inr cols
        \<and> models_PgGetColOrder m db schema index = Inr colOrd
        \<and> ((\<exists>ret. PgIndexColumns m db schema table index = Inr ret
                \<and> length ret = length (ws_tokens (Ord colOrd))
                \<and> (\<forall>j < length ret. \<exists>cid.
                      Atoi (ws_tokens (Ord colOrd) ! j) = Inr cid
                    \<and> List.find (\<lambda>ic. Cid ic = cid) cols = Some (ret ! j)
                    \<and> Cid (ret ! j) = cid))
           \<or> (\<exists>v \<in> set (Split (Ord colOrd) CHR '' ''). (\<exists>e. Atoi v = Inl e)
                \<and> PgIndexColumns m db schema table index
                    = Inl (Errorf (''could not convert '' @ s @ table @ '' index '' @ index
                                    @ '' column '' @ v @ '' to int'')))
           \<or> (\<exists>v \<in> set (Split (Ord colOrd) CHR '' ''). \<exists>cid. Atoi v = Inr cid
                \<and> (\<forall>ic \<in> set cols. Cid ic \<noteq> cid)
                \<and> PgIndexColumns m db schema table index
                    = Inl (Errorf (''could not find '' @ s @ table @ '' index '' @ index
                                    @ '' column id '' @ Itoa cid)))))"
proof (cases "models_PgIndexColumns m db schema index")
  case (Inl err)
  then show ?thesis by (simp add: PgIndexColumns_def)
next
  case cols: (Inr cols)
  show ?thesis
  proof (cases "models_PgGetColOrder m db schema index")
    case (Inl err)
    with cols show ?thesis by (simp add: PgIndexColumns_def)
  next
    case ord: (Inr colOrd)
    let ?vs = "Split (Ord colOrd) CHR '' ''"
    have run: "PgIndexColumns m db schema table index = orderLoop s table index cols ?vs []"
      using cols ord assms by (simp add: PgIndexColumns_def)
    show ?thesis
    proof (cases "orderLoop s table index cols ?vs []")
      case (Inl err)
      from orderLoop_Inl[OF Inl] run Inl cols ord show ?thesis
        by (auto simp: findColumn_None)
    next
      case (Inr ret)
      from orderLoop_Inr[OF Inr] have
        l2: "list_all2 (\<lambda>v c. \<exists>cid. Atoi v = Inr cid \<and> findColumn cols cid = Some c) ?vs ret"
        by simp
      then have "\<forall>v \<in> set ?vs. \<exists>cid. Atoi v = Inr cid"
        by (fastforce simp: list_all2_conv_all_nth in_set_conv_nth)
      then have tok: "ws_tokens (Ord colOrd) = ?vs" by (rule ws_tokens_eq_Split)
      from l2 have len: "length ret = length ?vs" by (simp add: list_all2_lengthD)
      have "\<exists>cid. Atoi (?vs ! j) = Inr cid
              \<and> List.find (\<lambda>ic. Cid ic = cid) cols = Some (ret ! j) \<and> Cid (ret ! j) = cid"
        if "j < length ret" for j
      proof -
        from l2 that len obtain cid where
          c: "Atoi (?vs ! j) = Inr cid" "findColumn cols cid = Some (ret ! j)"
          by (auto simp: list_all2_conv_all_nth)
        from c(2) have "List.find (\<lambda>ic. Cid ic = cid) cols = Some (ret ! j)"
          by (simp add: findColumn_find)
        moreover from this have "Cid (ret ! j) = cid" by (auto simp: find_Some_iff)
        ultimately show ?thesis using c(1) by blast
      qed
      with run Inr cols ord tok len show ?thesis by auto
    qed
  qed
qed

text \<open>
  The example of the spec: the ordinal string \<open>2 1 3\<close> with the columns \<open>a\<close>, \<open>b\<close>,
  \<open>c\<close> of identifiers 1, 2, 3 gives \<open>[b, a, c]\<close>.
\<close>

theorem PgIndexColumns_ordered_or_fails_witness:
  "PgIndexColumns
     (fixed_models (Inr []) (Inr []) (Inr [])
        (Inr [\<lparr>Cid = 1, ColumnName = ''a''\<rparr>, \<lparr>Cid = 2, ColumnName = ''b''\<rparr>,
              \<lparr>Cid = 3, ColumnName = ''c''\<rparr>])
        (Inr \<lparr>Ord = ''2 1 3''\<rparr>) None (Inr []))
     [] ''public'' ''t'' ''t_idx''
   = Inr [\<lparr>Cid = 2, ColumnName = ''b''\<rparr>, \<lparr>Cid = 1, ColumnName = ''a''\<rparr>,
          \<lparr>Cid = 3, ColumnName = ''c''\<rparr>]"
  using PgIndexColumns_ordered_or_fails
          [OF refl,
           of "fixed_models (Inr []) (Inr []) (Inr [])
                 (Inr [\<lparr>Cid = 1, ColumnName = ''a''\<rparr>, \<lparr>Cid = 2, ColumnName = ''b''\<rparr>,
                       \<lparr>Cid = 3, ColumnName = ''c''\<rparr>])
                 (Inr \<lparr>Ord = ''2 1 3''\<rparr>) None (Inr [])"
              "[]" "''public''" "''t_idx''" "''t''"]
  by (simp add: PgIndexColumns_def fixed_models_def Atoi_def isDigit_def decimal_def
        digitVal_def)

text \<open>
  Claim C1 as stated fails where the ordinal string repeats an identifier: for \<open>1 1\<close>
  the column of identifier 1 is returned twice, and its identifier is in the ordinal
  sequence twice, not exactly once.
\<close>

theorem PgIndexColumns_counterexample:
  "PgIndexColumns
     (fixed_models (Inr []) (Inr []) (Inr [])
        (Inr [\<lparr>Cid = 1, ColumnName = ''a''\<rparr>])
        (Inr \<lparr>Ord = ''1 1''\<rparr>) None (Inr []))
     [] ''public'' ''t'' ''t_idx''
   = Inr [\<lparr>Cid = 1, ColumnName = ''a''\<rparr>, \<lparr>Cid = 1, ColumnName = ''a''\<rparr>]
   \<and> ws_tokens ''1 1'' = [''1'', ''1'']
   \<and> length (filter (\<lambda>v. Atoi v = Inr (Cid \<lparr>Cid = 1, ColumnName = ''a''\<rparr>))
               (ws_tokens ''1 1'')) = 2"
  by (simp add: PgIndexColumns_def fixed_models_def Atoi_def isDigit_def decimal_def
        digitVal_def ws_tokens_def isSpace_def)

section \<open>Properties of the query text normalizer\<close>

lemma PgQueryStrip_from_step:
  assumes "i < length query" "Suc i < length queryComments"
  shows "PgQueryStrip_from i query queryComments
           = PgQueryStrip_from (Suc i) (query[i := stripLine (query ! i)])
               (queryComments[Suc i := removedText (query ! i)])"
  using assms
  by (subst PgQueryStrip_from.simps)
     (simp add: stripLine_def removedText_def Let_def split: option.splits)

lemma PgQueryStrip_from_closed:
  assumes "length query < length queryComments" "i \<le> length query" "n = length query - i"
  shows "PgQueryStrip_from i query queryComments
           = Inr (take i query @ map stripLine (drop i query),
                  take (Suc i) queryComments @ map removedText (drop i query)
                    @ drop (Suc (length query)) queryComments)"
  using assms
proof (induction n arbitrary: i query queryComments)
  case 0
  then have "i = length query" by simp
  then show ?case
    by (subst PgQueryStrip_from.simps) simp
next
  case (Suc n)
  then have lt: "i < length query" "Suc i < length queryComments" by simp_all
  let ?q = "query[i := stripLine (query ! i)]"
  let ?c = "queryComments[Suc i := removedText (query ! i)]"
  have ih: "PgQueryStrip_from (Suc i) ?q ?c
              = Inr (take (Suc i) ?q @ map stripLine (drop (Suc i) ?q),
                     take (Suc (Suc i)) ?c @ map removedText (drop (Suc i) ?q)
                       @ drop (Suc (length ?q)) ?c)"
    using Suc.prems lt by (intro Suc.IH) simp_all
  have q1: "take (Suc i) ?q = take i query @ [stripLine (query ! i)]"
    using lt by (simp add: take_Suc_conv_app_nth)
  have q2: "drop (Suc i) ?q = drop (Suc i) query" by simp
  have q3: "drop i query = query ! i # drop (Suc i) query"
    using lt by (simp add: Cons_nth_drop_Suc)
  have c1: "take (Suc (Suc i)) ?c = take (Suc i) queryComments @ [removedText (query ! i)]"
    using lt by (simp add: take_Suc_conv_app_nth)
  have c2: "drop (Suc (length ?q)) ?c = drop (Suc (length query)) queryComments"
    using lt by simp
  show ?case
    unfolding PgQueryStrip_from_step[OF lt] ih q1 q2 c1 c2 q3 by simp
qed

lemma PgQueryStrip_closed:
  assumes "length query < length queryComments"
  shows "PgQueryStrip query queryComments
           = Inr (map stripLine query,
                  take 1 queryComments @ map removedText query
                    @ drop (Suc (length query)) queryComments)"
  using PgQueryStrip_from_closed[OF assms, of 0] by (simp add: PgQueryStrip_def)

lemma matchHere_pos: "matchHere s = Some n \<Longrightarrow> 2 \<le> n"
  by (auto simp: matchHere_def Let_def split: if_splits)

lemma letterRune_le: "letterRune s \<le> length s"
  by (cases s) (auto simp: letterRune_def HasPrefix_def longS_def kelvin_def)

lemma identRune_le: "identRune s \<le> length s"
  using letterRune_le[of s] by (cases s) (auto simp: identRune_def)

lemma spaceRune_le: "spaceRune s \<le> length s"
  by (cases s) (auto simp: spaceRune_def)

lemma keywordAS_le: "keywordAS s \<le> length s"
  by (cases s) (auto simp: keywordAS_def HasPrefix_def longS_def split: list.splits)

lemma runLen_le: "(\<And>s. rune s \<le> length s) \<Longrightarrow> runLen rune s \<le> length s"
proof (induction rune s rule: runLen.induct)
  case (1 rune)
  then show ?case by simp
next
  case (2 rune c cs)
  show ?case
  proof (cases "rune (c # cs) = 0")
    case True
    then show ?thesis by simp
  next
    case False
    from "2.IH"[OF refl False "2.prems"]
    have "runLen rune (drop (rune (c # cs) - 1) cs) \<le> length cs - (rune (c # cs) - 1)"
      by simp
    moreover have "rune (c # cs) \<le> Suc (length cs)" using "2.prems"[of "c # cs"] by simp
    ultimately show ?thesis using False by (simp add: Let_def)
  qed
qed

lemma matchHere_le:
  assumes "matchHere s = Some n"
  shows "n \<le> length s"
proof -
  note le = letterRune_le keywordAS_le runLen_le[of identRune, OF identRune_le]
    runLen_le[of spaceRune, OF spaceRune_le]
  define s1 where "s1 = drop 2 s"
  define a where "a = letterRune s1"
  define s2 where "s2 = drop a s1"
  define b where "b = runLen identRune s2"
  define s3 where "s3 = drop b s2"
  define c where "c = runLen spaceRune s3"
  define s4 where "s4 = drop c s3"
  define d where "d = keywordAS s4"
  define s5 where "s5 = drop d s4"
  define e where "e = runLen spaceRune s5"
  define s6 where "s6 = drop e s5"
  define f where "f = letterRune s6"
  define s7 where "s7 = drop f s6"
  define g where "g = runLen identRune s7"
  from assms have p: "2 \<le> length s" and n: "n = 2 + a + b + c + d + e + f + g"
    unfolding matchHere_def Let_def a_def b_def c_def d_def e_def f_def g_def
      s1_def s2_def s3_def s4_def s5_def s6_def s7_def
    by (auto simp: HasPrefix_def split: if_splits)
  have "a \<le> length s1" "b \<le> length s2" "c \<le> length s3" "d \<le> length s4"
    "e \<le> length s5" "f \<le> length s6" "g \<le> length s7"
    unfolding a_def b_def c_def d_def e_def f_def g_def by (rule le)+
  moreover have "length s1 = length s - 2" "length s2 = length s1 - a"
    "length s3 = length s2 - b" "length s4 = length s3 - c" "length s5 = length s4 - d"
    "length s6 = length s5 - e" "length s7 = length s6 - f"
    unfolding s1_def s2_def s3_def s4_def s5_def s6_def s7_def by simp_all
  ultimately show ?thesis using p n by linarith
qed

lemma findFrom_Some:
  "findFrom i l = Some (p0, p1) \<Longrightarrow> i \<le> p0 \<and> p0 < i + length l \<and> p0 < p1 \<and> p1 \<le> i + length l"
proof (induction l arbitrary: i)
  case Nil
  then show ?case by simp
next
  case (Cons c cs)
  show ?case
  proof (cases "matchHere (c # cs)")
    case None
    with Cons.prems have "findFrom (Suc i) cs = Some (p0, p1)" by simp
    from Cons.IH[OF this] show ?thesis by simp
  next
    case (Some n)
    with Cons.prems matchHere_pos[OF Some] matchHere_le[OF Some] show ?thesis by auto
  qed
qed

lemma FindStringIndex_Some:
  assumes "FindStringIndex l = Some (p0, p1)"
  shows "p0 < length l" "p0 < p1" "p1 \<le> length l"
  using findFrom_Some[of 0 l p0 p1] assms by (simp_all add: FindStringIndex_def)

lemma stripLine_None: "FindStringIndex l = None \<Longrightarrow> stripLine l = l \<and> removedText l = []"
  by (simp add: stripLine_def removedText_def)

lemma stripLine_Some:
  assumes "FindStringIndex l \<noteq> None"
  shows "stripLine l \<noteq> l" "removedText l \<noteq> []"
proof -
  from assms obtain p0 p1 where f: "FindStringIndex l = Some (p0, p1)" by auto
  note b = FindStringIndex_Some[OF f]
  have "length (stripLine l) < length l" using b f by (auto simp: stripLine_def)
  then show "stripLine l \<noteq> l" by auto
  show "removedText l \<noteq> []" using b f by (simp add: removedText_def)
qed

text \<open>
  Claim C8, as amended.  When the comments have room for every line, \<open>PgQueryStrip\<close>
  returns, and so does a second run on what it left.  A run replaces every line by the
  line without its first match of the pattern (\<open>stripLine\<close>: the line itself when it has
  no match), stores the removed text (\<open>removedText\<close>: empty when there is no match) as the
  comment one place after the line, and leaves the other comments alone.  So the second
  run leaves a line as it is and records an empty comment for it exactly when the line, as
  the first run left it, has no match of the pattern; a line that still has one is changed
  again and gets a comment that is not empty.
\<close>

theorem PgQueryStrip_twice:
  assumes "length query < length queryComments"
  shows "\<exists>q1 c1 q2 c2.
           PgQueryStrip query queryComments = Inr (q1, c1)
         \<and> PgQueryStrip q1 c1 = Inr (q2, c2)
         \<and> length q1 = length query \<and> length q2 = length query
         \<and> q1 = map stripLine query
         \<and> c1 = take 1 queryComments @ map removedText query
                  @ drop (Suc (length query)) queryComments
         \<and> q2 = map stripLine q1
         \<and> c2 = take 1 c1 @ map removedText q1 @ drop (Suc (length q1)) c1
         \<and> (\<forall>i < length query.
              q1 ! i = stripLine (query ! i) \<and> c1 ! (i + 1) = removedText (query ! i)
            \<and> q2 ! i = stripLine (q1 ! i) \<and> c2 ! (i + 1) = removedText (q1 ! i)
            \<and> (case FindStringIndex (query ! i) of
                  None \<Rightarrow> q1 ! i = query ! i \<and> c1 ! (i + 1) = []
                | Some (p0, p1) \<Rightarrow>
                    q1 ! i = take p0 (query ! i) @ drop p1 (query ! i)
                  \<and> c1 ! (i + 1) = take (p1 - p0) (drop p0 (query ! i))
                  \<and> p0 < p1 \<and> p1 \<le> length (query ! i)))
         \<and> (\<forall>i < length query.
              (FindStringIndex (q1 ! i) = None \<longrightarrow> q2 ! i = q1 ! i \<and> c2 ! (i + 1) = [])
            \<and> (FindStringIndex (q1 ! i) \<noteq> None \<longrightarrow> q2 ! i \<noteq> q1 ! i \<and> c2 ! (i + 1) \<noteq> []))"
proof -
  define q1 where "q1 = map stripLine query"
  define c1 where "c1 = take 1 queryComments @ map removedText query
                          @ drop (Suc (length query)) queryComments"
  define q2 where "q2 = map stripLine q1"
  define c2 where "c2 = take 1 c1 @ map removedText q1 @ drop (Suc (length q1)) c1"
  have one: "PgQueryStrip query queryComments = Inr (q1, c1)"
    unfolding q1_def c1_def by (rule PgQueryStrip_closed[OF assms])
  have l1: "length q1 = length query" by (simp add: q1_def)
  have len: "length q1 < length c1" using assms by (simp add: q1_def c1_def)
  have two: "PgQueryStrip q1 c1 = Inr (q2, c2)"
    unfolding q2_def c2_def by (rule PgQueryStrip_closed[OF len])
  have l2: "length q2 = length query" by (simp add: q2_def l1)
  have t0: "length (take 1 queryComments) = 1" using assms by simp
  have t1: "length (take 1 c1) = 1" using len by simp
  have first: "q1 ! i = stripLine (query ! i) \<and> c1 ! (i + 1) = removedText (query ! i)"
    if "i < length query" for i
  proof -
    have "c1 ! (i + 1)
            = (map removedText query @ drop (Suc (length query)) queryComments) ! i"
      unfolding c1_def using t0 by (metis add.commute nth_append_length_plus)
    also have "\<dots> = removedText (query ! i)" using that by (simp add: nth_append)
    finally show ?thesis using that by (simp add: q1_def)
  qed
  have lines: "q2 ! i = stripLine (q1 ! i) \<and> c2 ! (i + 1) = removedText (q1 ! i)"
    if "i < length query" for i
  proof -
    have "c2 ! (i + 1) = (map removedText q1 @ drop (Suc (length q1)) c1) ! i"
      unfolding c2_def using t1 by (metis add.commute nth_append_length_plus)
    also have "\<dots> = removedText (q1 ! i)" using that l1 by (simp add: nth_append)
    finally show ?thesis using that l1 by (simp add: q2_def)
  qed
  have spans: "case FindStringIndex l of
                 None \<Rightarrow> stripLine l = l \<and> removedText l = []
               | Some (p0, p1) \<Rightarrow>
                   stripLine l = take p0 l @ drop p1 l
                 \<and> removedText l = take (p1 - p0) (drop p0 l)
                 \<and> p0 < p1 \<and> p1 \<le> length l" for l
    using FindStringIndex_Some[of l]
    by (auto simp: stripLine_def removedText_def split: option.splits)
  have a: "q1 ! i = stripLine (query ! i) \<and> c1 ! (i + 1) = removedText (query ! i)
         \<and> q2 ! i = stripLine (q1 ! i) \<and> c2 ! (i + 1) = removedText (q1 ! i)
         \<and> (case FindStringIndex (query ! i) of
               None \<Rightarrow> q1 ! i = query ! i \<and> c1 ! (i + 1) = []
             | Some (p0, p1) \<Rightarrow>
                 q1 ! i = take p0 (query ! i) @ drop p1 (query ! i)
               \<and> c1 ! (i + 1) = take (p1 - p0) (drop p0 (query ! i))
               \<and> p0 < p1 \<and> p1 \<le> length (query ! i))"
    if "i < length query" for i
    using first[OF that] lines[OF that] spans[of "query ! i"]
    by (auto split: option.splits)
  have b: "(FindStringIndex (q1 ! i) = None \<longrightarrow> q2 ! i = q1 ! i \<and> c2 ! (i + 1) = [])
      \<and> (FindStringIndex (q1 ! i) \<noteq> None \<longrightarrow> q2 ! i \<noteq> q1 ! i \<and> c2 ! (i + 1) \<noteq> [])"
    if "i < length query" for i
    using lines[OF that] stripLine_None[of "q1 ! i"] stripLine_Some[of "q1 ! i"] by metis
  show ?thesis
  proof (rule exI[of _ q1], rule exI[of _ c1], rule exI[of _ q2], rule exI[of _ c2],
      intro conjI)
    show "PgQueryStrip query queryComments = Inr (q1, c1)" by (rule one)
    show "PgQueryStrip q1 c1 = Inr (q2, c2)" by (rule two)
    show "length q1 = length query" by (rule l1)
    show "length q2 = length query" by (rule l2)
    show "q1 = map stripLine query" by (rule q1_def)
    show "c1 = take 1 queryComments @ map removedText query
                 @ drop (Suc (length query)) queryComments" by (rule c1_def)
    show "q2 = map stripLine q1" by (rule q2_def)
    show "c2 = take 1 c1 @ map removedText q1 @ drop (Suc (length q1)) c1" by (rule c2_def)
    show "\<forall>i < length query.
              q1 ! i = stripLine (query ! i) \<and> c1 ! (i + 1) = removedText (query ! i)
            \<and> q2 ! i = stripLine (q1 ! i) \<and> c2 ! (i + 1) = removedText (q1 ! i)
            \<and> (case FindStringIndex (query ! i) of
                  None \<Rightarrow> q1 ! i = query ! i \<and> c1 ! (i + 1) = []
                | Some (p0, p1) \<Rightarrow>
                    q1 ! i = take p0 (query ! i) @ drop p1 (query ! i)
                  \<and> c1 ! (i + 1) = take (p1 - p0) (drop p0 (query ! i))
                  \<and> p0 < p1 \<and> p1 \<le> length (query ! i))"
      using a by blast
    show "\<forall>i < length query.
              (FindStringIndex (q1 ! i) = None \<longrightarrow> q2 ! i = q1 ! i \<and> c2 ! (i + 1) = [])
            \<and> (FindStringIndex (q1 ! i) \<noteq> None \<longrightarrow> q2 ! i \<noteq> q1 ! i \<and> c2 ! (i + 1) \<noteq> [])"
      using b by blast
  qed
qed

theorem PgQueryStrip_twice_witness:
  "length [''SELECT a::int AS aa'', ''FROM t''] < length [[], [], []::string]
   \<and> PgQueryStrip [''SELECT a::int AS aa'', ''FROM t''] [[], [], []]
     = Inr ([''SELECT a'', ''FROM t''], [[], ''::int AS aa'', []])
   \<and> PgQueryStrip [''SELECT a'', ''FROM t''] [[], ''::int AS aa'', []]
     = Inr ([''SELECT a'', ''FROM t''], [[], [], []])"
proof -
  have h: "length [''SELECT a::int AS aa'', ''FROM t''] < length [[], [], []::string]"
    by simp
  have run:
    "PgQueryStrip [''SELECT a::int AS aa'', ''FROM t''] [[], [], []]
       = Inr ([''SELECT a'', ''FROM t''], [[], ''::int AS aa'', []])
     \<and> PgQueryStrip [''SELECT a'', ''FROM t''] [[], ''::int AS aa'', []]
       = Inr ([''SELECT a'', ''FROM t''], [[], [], []])"
    by code_simp
  from PgQueryStrip_twice[OF h] run h show ?thesis by simp
qed

text \<open>
  Claim C8 as stated fails on a line with two casts with aliases: the first run removes
  the first one only, and the second run removes the other and records it.
\<close>

theorem PgQueryStrip_counterexample:
  "PgQueryStrip [''SELECT a::int AS aa, b::text AS bb''] [[], []]
     = Inr ([''SELECT a, b::text AS bb''], [[], ''::int AS aa''])
   \<and> PgQueryStrip [''SELECT a, b::text AS bb''] [[], ''::int AS aa'']
     = Inr ([''SELECT a, b''], [[], ''::text AS bb''])"
  by code_simp

end
